theory Spec2Isabelle
  imports Main
begin

section \<open>The exemplar reservoir (exemplar/ExemplarReservoir.ts)\<close>

subsection \<open>Values, attributes, contexts\<close>

text \<open>
  An attribute value is a string, a number, a boolean or an array; the attribute type of the
  metrics API also admits \<open>undefined\<close>, which is as well what reading a missing key of
  an object yields. The source compares attribute values with \<open>===\<close>, under which two
  arrays are equal only when they are the same object and \<open>NaN\<close> equals nothing, itself
  included. So an array is represented by its identity (an address), and \<open>NaN\<close> has a
  constructor of its own; the other numbers are only stored, copied and compared, never
  computed with, and are taken to be integers.
\<close>

datatype AttributeValue =
    AUndefined
  | AString string
  | ANumber int
  | ANaN
  | ABoolean bool
  | AArray nat

definition strictEquals :: "AttributeValue \<Rightarrow> AttributeValue \<Rightarrow> bool" where
  "strictEquals a b = (a = b \<and> a \<noteq> ANaN)"

text \<open>
  An attributes object is the list of its own properties, in the order of \<open>Object.keys\<close>.
  Objects are modelled by value: the source keeps a reference to the object the producer
  passed in and later deletes keys from that very object, which the model shows only
  through the slot's own copy.
\<close>

type_synonym Attributes = "(string \<times> AttributeValue) list"

definition objectKeys :: "Attributes \<Rightarrow> string list" where
  "objectKeys obj = map fst obj"

definition getProp :: "Attributes \<Rightarrow> string \<Rightarrow> AttributeValue" where
  "getProp obj key = (case map_of obj key of None \<Rightarrow> AUndefined | Some v \<Rightarrow> v)"

definition deleteProp :: "string \<Rightarrow> Attributes \<Rightarrow> Attributes" where
  "deleteProp key obj = filter (\<lambda>kv. fst kv \<noteq> key) obj"

type_synonym ValueType = int

type_synonym HrTime = "int \<times> int"

record SpanContext =
  traceId :: string
  spanId :: string

text \<open>
  Modelled from the spec: the tracing API (\<open>trace.getSpanContext\<close> of the package
  \<open>@opentelemetry/api\<close>) is not part of the sources. A context either carries the span
  context of an active span or carries none, and \<open>getSpanContext\<close> reads it.
\<close>

datatype Context = Context (getSpanContext: "SpanContext option")

subsection \<open>A slot: class StorageItem\<close>

record StorageItem =
  "value" :: ValueType
  attributes :: "Attributes option"
  timestamp :: HrTime
  spanId :: "string option"
  traceId :: "string option"

record Exemplar =
  filteredAttributes :: Attributes
  "value" :: ValueType
  timestamp :: HrTime
  spanId :: "string option"
  traceId :: "string option"

definition StorageItem_new :: StorageItem where
  "StorageItem_new =
     \<lparr>StorageItem.value = 0, attributes = None, timestamp = (0, 0),
      spanId = None, traceId = None\<rparr>"

definition StorageItem_offerMeasurement ::
    "ValueType \<Rightarrow> HrTime \<Rightarrow> Attributes \<Rightarrow> Context \<Rightarrow> StorageItem \<Rightarrow> StorageItem" where
  "StorageItem_offerMeasurement v ts attrs ctx this =
     (let spanContext = getSpanContext ctx
      in this\<lparr>StorageItem.value := v,
              attributes := Some attrs,
              StorageItem.timestamp := ts,
              StorageItem.spanId := map_option SpanContext.spanId spanContext,
              StorageItem.traceId := map_option SpanContext.traceId spanContext\<rparr>)"

text \<open>The body of the \<open>forEach\<close> over the keys of the point attributes.\<close>

definition filterKey :: "Attributes \<Rightarrow> string \<Rightarrow> Attributes \<Rightarrow> Attributes" where
  "filterKey pointAttributes key currentAttributes =
     (if strictEquals (getProp pointAttributes key) (getProp currentAttributes key)
      then deleteProp key currentAttributes
      else currentAttributes)"

definition StorageItem_getAndReset ::
    "Attributes \<Rightarrow> StorageItem \<Rightarrow> Exemplar option \<times> StorageItem" where
  "StorageItem_getAndReset pointAttributes this =
     (case attributes this of
        Some currentAttributes \<Rightarrow>
          (let filtered = fold (filterKey pointAttributes) (objectKeys pointAttributes)
                            currentAttributes;
               retVal = \<lparr>filteredAttributes = filtered,
                         value = StorageItem.value this,
                         timestamp = StorageItem.timestamp this,
                         spanId = StorageItem.spanId this,
                         traceId = StorageItem.traceId this\<rparr>
           in (Some retVal,
               this\<lparr>attributes := None,
                    StorageItem.value := 0,
                    StorageItem.timestamp := (0, 0),
                    StorageItem.spanId := None,
                    StorageItem.traceId := None\<rparr>))
      | None \<Rightarrow> (None, this))"

subsection \<open>The reservoir: class FixedSizeExemplarReservoirBase\<close>

record Reservoir =
  reservoirStorage :: "StorageItem list"
  size_field :: nat

text \<open>
  Reading \<open>this._reservoirStorage[index]\<close> outside the array yields \<open>undefined\<close>, and the
  method call on it throws a \<open>TypeError\<close> before anything is written. The capacity is a
  natural number and an index is an integer; an index that is not a whole number would
  read \<open>undefined\<close> as an index out of range does.
\<close>

datatype error = TypeError

definition FixedSizeExemplarReservoirBase_new :: "nat \<Rightarrow> Reservoir" where
  "FixedSizeExemplarReservoirBase_new n =
     \<lparr>reservoirStorage = map (\<lambda>i. StorageItem_new) [0..<n], size_field = n\<rparr>"

definition maxSize :: "Reservoir \<Rightarrow> nat" where
  "maxSize this = size_field this"

text \<open>
  The index selection is abstract in the source and is a parameter here. A call returns
  the fault it raised, if any, together with the reservoir as the call left it.
\<close>

type_synonym IndexFor = "ValueType \<Rightarrow> HrTime \<Rightarrow> Attributes \<Rightarrow> Context \<Rightarrow> int"

definition offerMeasurement ::
    "IndexFor \<Rightarrow> ValueType \<Rightarrow> HrTime \<Rightarrow> Attributes \<Rightarrow> Context \<Rightarrow> Reservoir
      \<Rightarrow> error option \<times> Reservoir" where
  "offerMeasurement reservoirIndexFor v ts attrs ctx this =
     (let index = reservoirIndexFor v ts attrs ctx
      in if index \<noteq> - 1 then
           (if 0 \<le> index \<and> index < int (length (reservoirStorage this)) then
              (None,
               this\<lparr>reservoirStorage :=
                 (reservoirStorage this)
                   [nat index := StorageItem_offerMeasurement v ts attrs ctx
                                   (reservoirStorage this ! nat index)]\<rparr>)
            else (Some TypeError, this))
         else (None, this))"

definition reset :: "Reservoir \<Rightarrow> Reservoir" where
  "reset this = this"

text \<open>
  The \<open>forEach\<close> of \<open>collectAndReset\<close>: every slot is read and reset in turn, from index
  0 upwards, and the exemplars of the slots that held one are pushed in that order.
\<close>

fun drainStorage :: "Attributes \<Rightarrow> StorageItem list \<Rightarrow> Exemplar list \<times> StorageItem list" where
  "drainStorage pointAttributes [] = ([], [])"
| "drainStorage pointAttributes (storageItem # rest) =
     (let (res, storageItem') = StorageItem_getAndReset pointAttributes storageItem;
          (retVal, rest') = drainStorage pointAttributes rest
      in (case res of None \<Rightarrow> retVal | Some e \<Rightarrow> e # retVal, storageItem' # rest'))"

definition collectAndReset :: "Attributes \<Rightarrow> Reservoir \<Rightarrow> Exemplar list \<times> Reservoir" where
  "collectAndReset pointAttributes this =
     (let (retVal, storage') = drainStorage pointAttributes (reservoirStorage this)
      in (retVal, reset (this\<lparr>reservoirStorage := storage'\<rparr>)))"

text \<open>
  A strategy that answers a fixed index, and a history of calls on a reservoir. Each offer
  of a history comes with the index the strategy chose for it, so that a strategy with a
  state of its own is covered. A fault is raised to the caller, and the next call finds the
  reservoir as the faulty one left it.
\<close>

definition fixedIndex :: "int \<Rightarrow> IndexFor" where
  "fixedIndex i v ts attrs ctx = i"

datatype Call =
    OfferCall int ValueType HrTime Attributes Context
  | CollectCall Attributes

fun runCall :: "Call \<Rightarrow> Reservoir \<Rightarrow> Reservoir" where
  "runCall (OfferCall i v ts attrs ctx) this =
     snd (offerMeasurement (fixedIndex i) v ts attrs ctx this)"
| "runCall (CollectCall pointAttributes) this = snd (collectAndReset pointAttributes this)"

definition runCalls :: "Call list \<Rightarrow> Reservoir \<Rightarrow> Reservoir" where
  "runCalls calls this = fold runCall calls this"

definition occupied :: "StorageItem \<Rightarrow> bool" where
  "occupied item = (attributes item \<noteq> None)"

section \<open>The gRPC client instrumentation (grpc-js/clientUtils.ts)\<close>

subsection \<open>The arguments of a client call: getMetadata\<close>

text \<open>
  The arguments of a client call are arbitrary JavaScript values. An object is its
  identity together with the properties that can be read from it.
\<close>

datatype JSValue =
    JSUndefined
  | JSNull
  | JSBoolean bool
  | JSNumber int
  | JSString string
  | JSFunction nat
  | JSObject nat "(string \<times> JSValue) list"

datatype JSType = TUndefined | TObject | TBoolean | TNumber | TString | TFunction

fun typeof :: "JSValue \<Rightarrow> JSType" where
  "typeof JSUndefined = TUndefined"
| "typeof JSNull = TObject"
| "typeof (JSBoolean b) = TBoolean"
| "typeof (JSNumber n) = TNumber"
| "typeof (JSString s) = TString"
| "typeof (JSFunction f) = TFunction"
| "typeof (JSObject a props) = TObject"

fun truthy :: "JSValue \<Rightarrow> bool" where
  "truthy JSUndefined = False"
| "truthy JSNull = False"
| "truthy (JSBoolean b) = b"
| "truthy (JSNumber n) = (n \<noteq> 0)"
| "truthy (JSString s) = (s \<noteq> [])"
| "truthy (JSFunction f) = True"
| "truthy (JSObject a props) = True"

fun member :: "JSValue \<Rightarrow> string \<Rightarrow> JSValue" where
  "member (JSObject a props) key =
     (case map_of props key of None \<Rightarrow> JSUndefined | Some v \<Rightarrow> v)"
| "member v key = JSUndefined"

text \<open>The predicate that \<open>getMetadata\<close> hands to \<open>findIndex\<close>.\<close>

definition isMetadata :: "JSValue \<Rightarrow> bool" where
  "isMetadata arg =
     (truthy arg \<and> typeof arg = TObject \<and> truthy (member arg ''internalRepr'')
      \<and> typeof (member arg ''getMap'') = TFunction)"

fun findIndexFrom :: "int \<Rightarrow> ('a \<Rightarrow> bool) \<Rightarrow> 'a list \<Rightarrow> int" where
  "findIndexFrom i p [] = - 1"
| "findIndexFrom i p (x # xs) = (if p x then i else findIndexFrom (i + 1) p xs)"

definition findIndex :: "('a \<Rightarrow> bool) \<Rightarrow> 'a list \<Rightarrow> int" where
  "findIndex p xs = findIndexFrom 0 p xs"

text \<open>
  \<open>args.splice(start, 0, item)\<close> for a start that is not negative: a start beyond the
  end of the array is clamped to its length.
\<close>

definition splice_insert :: "nat \<Rightarrow> 'a \<Rightarrow> 'a list \<Rightarrow> 'a list" where
  "splice_insert start item xs =
     (let actualStart = min start (length xs)
      in take actualStart xs @ item # drop actualStart xs)"

record GrpcClientFunc =
  requestStream :: bool
  responseStream :: bool

text \<open>
  The first parameter stands for the object that \<open>new grpcClient.Metadata()\<close> constructs.
  The result is the metadata returned and the array \<open>args\<close> as the call leaves it.
\<close>

definition getMetadata ::
    "JSValue \<Rightarrow> GrpcClientFunc \<Rightarrow> JSValue list \<Rightarrow> JSValue \<times> JSValue list" where
  "getMetadata newMetadata original args =
     (let metadataIndex = findIndex isMetadata args
      in if metadataIndex = - 1 then
           (let metadata = newMetadata;
                metadataIndex = (if \<not> requestStream original then 1 else 0)
            in (metadata, splice_insert metadataIndex metadata args))
         else (args ! nat metadataIndex, args))"

subsection \<open>The end of a streaming call: makeGrpcClientRemoteCall\<close>

text \<open>
  The span is an object of the tracing API; the model keeps the calls made on it, in
  order. The names of the span attributes are the constants the source refers to.
\<close>

datatype SpanStatusCode = UNSET | OK | ERROR

record SpanStatus =
  code :: SpanStatusCode
  message :: "string option"

datatype AttributeName = GRPC_ERROR_NAME | GRPC_ERROR_MESSAGE | RPC_GRPC_STATUS_CODE

datatype SpanCall =
    SetStatus SpanStatus
  | SetAttribute AttributeName AttributeValue
  | SetAttributes "(AttributeName \<times> AttributeValue) list"
  | End

record ServiceError =
  code :: int
  name :: string
  message :: string

record StatusObject =
  code :: int

text \<open>
  The two status conversions of \<open>../utils\<close> are not part of the sources and are
  parameters.
\<close>

record Utils =
  grpcStatusCodeToSpanStatus :: "int \<Rightarrow> SpanStatus"
  grpcStatusCodeToOpenTelemetryStatusCode :: "int \<Rightarrow> SpanStatusCode"

text \<open>
  What the listeners of a call share: the flag \<open>call[CALL_SPAN_ENDED]\<close>, the local
  variable \<open>spanEnded\<close> of the closure, and the span.
\<close>

record StreamCall =
  callSpanEnded :: bool
  spanEnded :: bool
  span :: "SpanCall list"

definition newStreamCall :: StreamCall where
  "newStreamCall = \<lparr>callSpanEnded = False, spanEnded = False, span = []\<rparr>"

definition endSpan :: "StreamCall \<Rightarrow> StreamCall" where
  "endSpan c = (if \<not> spanEnded c then c\<lparr>span := span c @ [End], spanEnded := True\<rparr> else c)"

definition onError :: "Utils \<Rightarrow> ServiceError \<Rightarrow> StreamCall \<Rightarrow> StreamCall" where
  "onError utils err c =
     (if callSpanEnded c then c
      else endSpan (c\<lparr>callSpanEnded := True,
                      span := span c @
                        [SetStatus
                           \<lparr>SpanStatus.code =
                              grpcStatusCodeToOpenTelemetryStatusCode utils (ServiceError.code err),
                            message = Some (ServiceError.message err)\<rparr>,
                         SetAttributes
                           [(GRPC_ERROR_NAME, AString (name err)),
                            (GRPC_ERROR_MESSAGE, AString (ServiceError.message err)),
                            (RPC_GRPC_STATUS_CODE, ANumber (ServiceError.code err))]]\<rparr>))"

definition onStatus :: "Utils \<Rightarrow> StatusObject \<Rightarrow> StreamCall \<Rightarrow> StreamCall" where
  "onStatus utils status c =
     (if callSpanEnded c then c
      else endSpan (c\<lparr>callSpanEnded := True,
                      span := span c @
                        [SetStatus (grpcStatusCodeToSpanStatus utils (StatusObject.code status)),
                         SetAttribute RPC_GRPC_STATUS_CODE
                           (ANumber (StatusObject.code status))]\<rparr>))"

datatype CallEvent = ErrorEvent ServiceError | StatusEvent StatusObject

text \<open>
  The two listeners are registered only for a call with a response stream. Listeners run
  one at a time, each to its end, so the completion events of a call form a sequence. The
  listener for \<open>metadata\<close> events hands the span to the metadata capture, which is not
  part of the sources, and is left out.
\<close>

fun emit :: "Utils \<Rightarrow> GrpcClientFunc \<Rightarrow> CallEvent \<Rightarrow> StreamCall \<Rightarrow> StreamCall" where
  "emit utils original (ErrorEvent err) c =
     (if responseStream original then onError utils err c else c)"
| "emit utils original (StatusEvent status) c =
     (if responseStream original then onStatus utils status c else c)"

fun emitAll :: "Utils \<Rightarrow> GrpcClientFunc \<Rightarrow> CallEvent list \<Rightarrow> StreamCall \<Rightarrow> StreamCall" where
  "emitAll utils original [] c = c"
| "emitAll utils original (ev # evs) c = emitAll utils original evs (emit utils original ev c)"

definition endCalls :: "StreamCall \<Rightarrow> nat" where
  "endCalls c = length (filter (\<lambda>call. call = End) (span c))"

section \<open>Properties of the exemplar reservoir\<close>

subsection \<open>Filtering the attributes\<close>

lemma getProp_deleteProp_other: "k' \<noteq> k \<Longrightarrow> getProp (deleteProp k obj) k' = getProp obj k'"
  by (induction obj) (auto simp: getProp_def deleteProp_def)

lemma fold_filterKey:
  "fold (filterKey p) ks cur =
     filter (\<lambda>kv. \<not> (fst kv \<in> set ks \<and> strictEquals (getProp p (fst kv)) (getProp cur (fst kv)))) cur"
proof (induction ks arbitrary: cur)
  case Nil
  then show ?case by simp
next
  case (Cons k ks)
  show ?case
  proof (cases "strictEquals (getProp p k) (getProp cur k)")
    case True
    then have step: "filterKey p k cur = deleteProp k cur" by (simp add: filterKey_def)
    have "filter (\<lambda>kv. \<not> (fst kv \<in> set ks
                 \<and> strictEquals (getProp p (fst kv)) (getProp (deleteProp k cur) (fst kv))))
            (deleteProp k cur) =
          filter (\<lambda>kv. fst kv \<noteq> k \<and> \<not> (fst kv \<in> set ks
                 \<and> strictEquals (getProp p (fst kv)) (getProp cur (fst kv)))) cur"
      unfolding deleteProp_def filter_filter
      by (rule filter_cong)
         (auto simp: getProp_deleteProp_other[unfolded deleteProp_def])
    also have "\<dots> = filter (\<lambda>kv. \<not> (fst kv \<in> set (k # ks)
                 \<and> strictEquals (getProp p (fst kv)) (getProp cur (fst kv)))) cur"
      using True by (intro filter_cong) auto
    finally show ?thesis by (simp add: step Cons.IH)
  next
    case False
    then have step: "filterKey p k cur = cur" by (simp add: filterKey_def)
    show ?thesis using False
      by (auto simp: step Cons.IH intro!: filter_cong)
  qed
qed

lemma getProp_distinct: "distinct (map fst obj) \<Longrightarrow> kv \<in> set obj \<Longrightarrow> getProp obj (fst kv) = snd kv"
  by (cases kv) (simp add: getProp_def)

text \<open>
  Claim C2. Reading an occupied slot returns an exemplar whose \<open>filteredAttributes\<close> are
  the stored attributes without exactly those properties whose key is a key of the point
  attributes and whose value is \<open>===\<close> to the value the point attributes have under that
  key; the other fields are the stored ones. The keys of an object are unique, which is the
  second hypothesis. At point attributes \<open>{a:1, b:2}\<close> and stored attributes
  \<open>{a:1, b:2, c:3}\<close> the result is \<open>{c:3}\<close>: this is the instance that follows the theorem.
\<close>

theorem getAndReset_filteredAttributes:
  assumes "attributes this = Some attrs" and "distinct (map fst attrs)"
  shows "fst (StorageItem_getAndReset p this) =
           Some \<lparr>filteredAttributes =
                   filter (\<lambda>kv. \<not> (fst kv \<in> set (objectKeys p)
                                    \<and> strictEquals (getProp p (fst kv)) (snd kv))) attrs,
                 value = StorageItem.value this,
                 timestamp = StorageItem.timestamp this,
                 spanId = StorageItem.spanId this,
                 traceId = StorageItem.traceId this\<rparr>"
proof -
  have "fold (filterKey p) (objectKeys p) attrs =
          filter (\<lambda>kv. \<not> (fst kv \<in> set (objectKeys p)
                           \<and> strictEquals (getProp p (fst kv)) (snd kv))) attrs"
    unfolding fold_filterKey
    by (rule filter_cong) (simp_all add: getProp_distinct[OF assms(2)])
  then show ?thesis
    using assms(1) by (simp add: StorageItem_getAndReset_def)
qed

text \<open>Point attributes \<open>{a:1, b:2}\<close> against measurement attributes \<open>{a:1, b:2, c:3}\<close>.\<close>

theorem getAndReset_filteredAttributes_witness:
  "attributes \<lparr>StorageItem.value = 7,
      attributes = Some [(''a'', ANumber 1), (''b'', ANumber 2), (''c'', ANumber 3)],
      timestamp = (1, 2), spanId = None, traceId = None\<rparr>
     = Some [(''a'', ANumber 1), (''b'', ANumber 2), (''c'', ANumber 3)]
   \<and> distinct (map fst [(''a'', ANumber 1), (''b'', ANumber 2), (''c'', ANumber 3)])
   \<and> fst (StorageItem_getAndReset [(''a'', ANumber 1), (''b'', ANumber 2)]
        \<lparr>StorageItem.value = 7,
         attributes = Some [(''a'', ANumber 1), (''b'', ANumber 2), (''c'', ANumber 3)],
         timestamp = (1, 2), spanId = None, traceId = None\<rparr>)
     = Some \<lparr>filteredAttributes = [(''c'', ANumber 3)], value = 7, timestamp = (1, 2),
             spanId = None, traceId = None\<rparr>"
  using getAndReset_filteredAttributes
          [of "\<lparr>StorageItem.value = 7,
                attributes = Some [(''a'', ANumber 1), (''b'', ANumber 2), (''c'', ANumber 3)],
                timestamp = (1, 2), spanId = None, traceId = None\<rparr>"
              "[(''a'', ANumber 1), (''b'', ANumber 2), (''c'', ANumber 3)]"
              "[(''a'', ANumber 1), (''b'', ANumber 2)]"]
  by (simp add: objectKeys_def getProp_def strictEquals_def)

subsection \<open>Draining the slots\<close>

lemma getAndReset_None_iff:
  "(fst (StorageItem_getAndReset p item) = None) = (attributes item = None)"
  by (simp add: StorageItem_getAndReset_def Let_def split: option.splits)

lemma getAndReset_snd_attributes:
  "attributes (snd (StorageItem_getAndReset p item)) = None"
  by (simp add: StorageItem_getAndReset_def Let_def split: option.splits)

lemma getAndReset_snd_occupied:
  "attributes item \<noteq> None \<Longrightarrow> snd (StorageItem_getAndReset p item) = StorageItem_new"
  by (auto simp: StorageItem_getAndReset_def Let_def StorageItem_new_def split: option.splits)

lemma getAndReset_snd_empty:
  "attributes item = None \<Longrightarrow> snd (StorageItem_getAndReset p item) = item"
  by (simp add: StorageItem_getAndReset_def)

lemma drainStorage_append:
  "drainStorage p (xs @ ys) =
     (fst (drainStorage p xs) @ fst (drainStorage p ys),
      snd (drainStorage p xs) @ snd (drainStorage p ys))"
  by (induction xs) (auto simp: Let_def split: prod.splits option.splits)

lemma drainStorage_snd:
  "snd (drainStorage p xs) = map (\<lambda>item. snd (StorageItem_getAndReset p item)) xs"
  by (induction xs) (auto simp: Let_def split: prod.splits option.splits)

lemma drainStorage_Cons_fst:
  "fst (drainStorage p (item # rest)) =
     (case fst (StorageItem_getAndReset p item) of
        None \<Rightarrow> fst (drainStorage p rest)
      | Some e \<Rightarrow> e # fst (drainStorage p rest))"
  by (cases "StorageItem_getAndReset p item"; cases "drainStorage p rest")
     (simp split: option.splits)

lemma drainStorage_fst:
  "map Some (fst (drainStorage p xs)) =
     map (\<lambda>item. fst (StorageItem_getAndReset p item)) (filter occupied xs)"
proof (induction xs)
  case Nil
  then show ?case by simp
next
  case (Cons item rest)
  show ?case
  proof (cases "attributes item")
    case None
    then have "fst (StorageItem_getAndReset p item) = None"
      by (simp add: getAndReset_None_iff)
    with None Cons.IH show ?thesis
      by (simp add: drainStorage_Cons_fst occupied_def del: drainStorage.simps)
  next
    case (Some attrs)
    then obtain e where "fst (StorageItem_getAndReset p item) = Some e"
      using getAndReset_None_iff[of p item] by (cases "fst (StorageItem_getAndReset p item)") auto
    with Some Cons.IH show ?thesis
      by (simp add: drainStorage_Cons_fst occupied_def del: drainStorage.simps)
  qed
qed

lemma drainStorage_length: "length (fst (drainStorage p xs)) \<le> length xs"
  by (induction xs) (auto simp: Let_def split: prod.splits option.splits)

lemma drainStorage_empty:
  "list_all (\<lambda>item. attributes item = None) xs \<Longrightarrow> fst (drainStorage p xs) = []"
  by (induction xs) (auto simp: Let_def StorageItem_getAndReset_def split: prod.splits option.splits)

lemma filter_by_index:
  "filter P xs = map (\<lambda>i. xs ! i) (filter (\<lambda>i. P (xs ! i)) [0..<length xs])"
proof -
  have "filter P xs = filter P (map (\<lambda>i. xs ! i) [0..<length xs])"
    by (simp add: map_nth)
  also have "\<dots> = map (\<lambda>i. xs ! i) (filter (\<lambda>i. P (xs ! i)) [0..<length xs])"
    by (simp add: filter_map comp_def)
  finally show ?thesis .
qed

lemma collectAndReset_fst: "fst (collectAndReset p this) = fst (drainStorage p (reservoirStorage this))"
  by (simp add: collectAndReset_def split: prod.splits)

lemma collectAndReset_snd:
  "snd (collectAndReset p this) =
     this\<lparr>reservoirStorage := snd (drainStorage p (reservoirStorage this))\<rparr>"
  by (simp add: collectAndReset_def reset_def split: prod.splits)

lemma offerMeasurement_length:
  "length (reservoirStorage (snd (offerMeasurement f v ts attrs ctx this))) =
     length (reservoirStorage this)"
  by (simp add: offerMeasurement_def Let_def)

lemma runCall_length: "length (reservoirStorage (runCall c this)) = length (reservoirStorage this)"
  by (cases c) (simp_all add: offerMeasurement_length collectAndReset_snd drainStorage_snd)

lemma runCalls_length:
  "length (reservoirStorage (runCalls calls this)) = length (reservoirStorage this)"
  unfolding runCalls_def by (induction calls arbitrary: this) (simp_all add: runCall_length)

lemma new_length: "length (reservoirStorage (FixedSizeExemplarReservoirBase_new n)) = n"
  by (simp add: FixedSizeExemplarReservoirBase_new_def)

text \<open>
  Claim C3. For every capacity \<open>n\<close> and every history of calls on a reservoir constructed
  with it (offers with whatever index the strategy chose, and earlier collects),
  \<open>collectAndReset\<close> returns at most \<open>n\<close> exemplars: exactly one for each occupied
  slot, namely what \<open>getAndReset\<close> yields for that slot, the slots taken in strictly
  ascending order of their index, hence each index once.
\<close>

theorem collectAndReset_ordered:
  "(let this = runCalls calls (FixedSizeExemplarReservoirBase_new n);
        slots = filter (\<lambda>i. occupied (reservoirStorage this ! i)) [0..<n];
        retVal = fst (collectAndReset p this)
    in length retVal \<le> n
       \<and> sorted_wrt (<) slots
       \<and> set slots = {i. i < n \<and> occupied (reservoirStorage this ! i)}
       \<and> length retVal = length slots
       \<and> map Some retVal =
           map (\<lambda>i. fst (StorageItem_getAndReset p (reservoirStorage this ! i))) slots)"
proof -
  define this where "this = runCalls calls (FixedSizeExemplarReservoirBase_new n)"
  define slots where "slots = filter (\<lambda>i. occupied (reservoirStorage this ! i)) [0..<n]"
  define retVal where "retVal = fst (collectAndReset p this)"
  have len: "length (reservoirStorage this) = n"
    by (simp add: this_def runCalls_length new_length)
  have bound: "length retVal \<le> n"
    using drainStorage_length[of p "reservoirStorage this"]
    by (simp add: retVal_def collectAndReset_fst len)
  have sorted: "sorted_wrt (<) slots"
    unfolding slots_def by (rule sorted_wrt_filter) simp
  have elems: "set slots = {i. i < n \<and> occupied (reservoirStorage this ! i)}"
    by (auto simp: slots_def)
  have "filter occupied (reservoirStorage this) = map (\<lambda>i. reservoirStorage this ! i) slots"
    using filter_by_index[of occupied "reservoirStorage this"] by (simp add: slots_def len)
  then have out: "map Some retVal =
      map (\<lambda>i. fst (StorageItem_getAndReset p (reservoirStorage this ! i))) slots"
    by (simp add: retVal_def collectAndReset_fst drainStorage_fst comp_def)
  from out have "length (map Some retVal) = length slots"
    by (metis length_map)
  then have same: "length retVal = length slots" by simp
  show ?thesis
    unfolding Let_def this_def[symmetric] slots_def[symmetric] retVal_def[symmetric]
    using bound sorted elems same out by blast
qed

subsection \<open>Offers outside the reservoir\<close>

text \<open>
  Claim C1, as amended. When the index that \<open>reservoirIndexFor\<close> returns does not lie in
  \<open>[0, N)\<close>, \<open>N\<close> the number of slots, \<open>offerMeasurement\<close> leaves the reservoir
  exactly as it was; it returns normally when the index is the sentinel \<open>-1\<close>, which is the
  one value the source guards against, and raises a \<open>TypeError\<close> for every other such index.
\<close>

theorem offerMeasurement_drop:
  assumes "\<not> (0 \<le> reservoirIndexFor v ts attrs ctx
              \<and> reservoirIndexFor v ts attrs ctx < int (length (reservoirStorage this)))"
  shows "offerMeasurement reservoirIndexFor v ts attrs ctx this =
           (if reservoirIndexFor v ts attrs ctx = - 1 then None else Some TypeError, this)"
  using assms by (simp add: offerMeasurement_def Let_def)

text \<open>The sentinel on a reservoir of two slots.\<close>

theorem offerMeasurement_drop_witness:
  "\<not> (0 \<le> fixedIndex (- 1) 5 (1, 2) [(''a'', ANumber 1)] (Context None)
        \<and> fixedIndex (- 1) 5 (1, 2) [(''a'', ANumber 1)] (Context None)
            < int (length (reservoirStorage (FixedSizeExemplarReservoirBase_new 2))))
   \<and> offerMeasurement (fixedIndex (- 1)) 5 (1, 2) [(''a'', ANumber 1)] (Context None)
        (FixedSizeExemplarReservoirBase_new 2)
       = (None, FixedSizeExemplarReservoirBase_new 2)"
  using offerMeasurement_drop
          [of "fixedIndex (- 1)" 5 "(1, 2)" "[(''a'', ANumber 1)]" "Context None"
              "FixedSizeExemplarReservoirBase_new 2"]
  by (simp add: fixedIndex_def)

text \<open>
  Claim C1 as stated fails: on a reservoir of two slots the index 2 is out of range, and the
  offer does not return normally.
\<close>

theorem offerMeasurement_out_of_range_faults:
  "\<not> (0 \<le> fixedIndex 2 5 (1, 2) [(''a'', ANumber 1)] (Context None)
        \<and> fixedIndex 2 5 (1, 2) [(''a'', ANumber 1)] (Context None)
            < int (length (reservoirStorage (FixedSizeExemplarReservoirBase_new 2))))
   \<and> fst (offerMeasurement (fixedIndex 2) 5 (1, 2) [(''a'', ANumber 1)] (Context None)
        (FixedSizeExemplarReservoirBase_new 2)) = Some TypeError"
  by (simp add: fixedIndex_def offerMeasurement_def FixedSizeExemplarReservoirBase_new_def)


subsection \<open>Every reachable slot is occupied or as constructed\<close>

lemma new_storage: "reservoirStorage (FixedSizeExemplarReservoirBase_new n) = replicate n StorageItem_new"
  by (simp add: FixedSizeExemplarReservoirBase_new_def map_replicate_const)

lemma offerMeasurement_size_field:
  "size_field (snd (offerMeasurement f v ts attrs ctx this)) = size_field this"
  by (simp add: offerMeasurement_def Let_def)

lemma runCall_size_field: "size_field (runCall c this) = size_field this"
  by (cases c) (simp_all add: offerMeasurement_size_field collectAndReset_snd)

lemma runCalls_size_field: "size_field (runCalls calls this) = size_field this"
  unfolding runCalls_def by (induction calls arbitrary: this) (simp_all add: runCall_size_field)

lemma offerMeasurement_inv:
  assumes "\<forall>item \<in> set (reservoirStorage this). attributes item = None \<longrightarrow> item = StorageItem_new"
  shows "\<forall>item \<in> set (reservoirStorage (snd (offerMeasurement f v ts attrs ctx this))).
           attributes item = None \<longrightarrow> item = StorageItem_new"
proof (cases "f v ts attrs ctx \<noteq> - 1 \<and> 0 \<le> f v ts attrs ctx
                \<and> f v ts attrs ctx < int (length (reservoirStorage this))")
  case True
  have occ: "attributes (StorageItem_offerMeasurement v ts attrs ctx old) = Some attrs" for old
    by (simp add: StorageItem_offerMeasurement_def Let_def)
  from True assms show ?thesis
    by (auto simp: offerMeasurement_def Let_def occ dest!: set_update_subset_insert[THEN subsetD])
next
  case False
  with assms show ?thesis by (auto simp: offerMeasurement_def Let_def)
qed

lemma drainStorage_inv:
  assumes "\<forall>item \<in> set xs. attributes item = None \<longrightarrow> item = StorageItem_new"
  shows "snd (drainStorage p xs) = replicate (length xs) StorageItem_new"
proof -
  have "snd (StorageItem_getAndReset p item) = StorageItem_new" if "item \<in> set xs" for item
    using that assms getAndReset_snd_occupied[of item p] getAndReset_snd_empty[of item p]
    by (cases "attributes item") auto
  then have "map (\<lambda>item. snd (StorageItem_getAndReset p item)) xs = map (\<lambda>item. StorageItem_new) xs"
    by (intro map_cong) auto
  then show ?thesis by (simp add: drainStorage_snd map_replicate_const)
qed

lemma runCall_inv:
  assumes "\<forall>item \<in> set (reservoirStorage this). attributes item = None \<longrightarrow> item = StorageItem_new"
  shows "\<forall>item \<in> set (reservoirStorage (runCall c this)).
           attributes item = None \<longrightarrow> item = StorageItem_new"
proof (cases c)
  case (OfferCall i v ts attrs ctx)
  then show ?thesis using offerMeasurement_inv[OF assms] by simp
next
  case (CollectCall p)
  then show ?thesis by (simp add: collectAndReset_snd drainStorage_inv[OF assms])
qed

lemma runCalls_inv:
  assumes "\<forall>item \<in> set (reservoirStorage this). attributes item = None \<longrightarrow> item = StorageItem_new"
  shows "\<forall>item \<in> set (reservoirStorage (runCalls calls this)).
           attributes item = None \<longrightarrow> item = StorageItem_new"
  using assms unfolding runCalls_def
proof (induction calls arbitrary: this)
  case Nil
  then show ?case by simp
next
  case (Cons c calls)
  show ?case using Cons.IH[OF runCall_inv[OF Cons.prems]] by simp
qed

lemma reachable_inv:
  "\<forall>item \<in> set (reservoirStorage (runCalls calls (FixedSizeExemplarReservoirBase_new n))).
     attributes item = None \<longrightarrow> item = StorageItem_new"
  by (rule runCalls_inv) (simp add: new_storage)

text \<open>
  Claim C4. After \<open>collectAndReset\<close>, whatever the history of the reservoir, every slot
  is empty: value zero, attributes cleared (\<open>null\<close>, which is what marks a slot as empty),
  timestamp \<open>[0, 0]\<close>, no span id and no trace id. The reservoir equals a freshly
  constructed one of the same capacity, and a second \<open>collectAndReset\<close> with no offer in
  between returns the empty sequence.
\<close>

theorem collectAndReset_empties:
  "(let this = runCalls calls (FixedSizeExemplarReservoirBase_new n);
        this' = snd (collectAndReset p this)
    in reservoirStorage this' =
         replicate n \<lparr>StorageItem.value = 0, attributes = None, timestamp = (0, 0),
                      spanId = None, traceId = None\<rparr>
       \<and> this' = FixedSizeExemplarReservoirBase_new n
       \<and> fst (collectAndReset q this') = [])"
proof -
  define this where "this = runCalls calls (FixedSizeExemplarReservoirBase_new n)"
  have len: "length (reservoirStorage this) = n"
    by (simp add: this_def runCalls_length new_length)
  have sz: "size_field this = n"
    by (simp add: this_def runCalls_size_field FixedSizeExemplarReservoirBase_new_def)
  have st: "reservoirStorage (snd (collectAndReset p this)) = replicate n StorageItem_new"
    using drainStorage_inv[OF reachable_inv[of calls n, folded this_def], of p]
    by (simp add: collectAndReset_snd len)
  have eq: "snd (collectAndReset p this) = FixedSizeExemplarReservoirBase_new n"
    using st sz by (simp add: collectAndReset_snd new_storage[symmetric] FixedSizeExemplarReservoirBase_new_def)
  have again: "fst (collectAndReset q (snd (collectAndReset p this))) = []"
    unfolding collectAndReset_fst st
    by (rule drainStorage_empty) (simp add: list_all_length StorageItem_new_def)
  show ?thesis
    unfolding Let_def this_def[symmetric]
    using st eq again by (simp add: StorageItem_new_def)
qed

subsection \<open>Offers into a slot\<close>

lemma offerMeasurement_in_range:
  assumes "i < length (reservoirStorage this)"
  shows "offerMeasurement (fixedIndex (int i)) v ts attrs ctx this =
           (None, this\<lparr>reservoirStorage :=
                      (reservoirStorage this)
                        [i := StorageItem_offerMeasurement v ts attrs ctx
                                (reservoirStorage this ! i)]\<rparr>)"
  using assms by (simp add: offerMeasurement_def fixedIndex_def)

lemma StorageItem_offerMeasurement_eq:
  "StorageItem_offerMeasurement v ts attrs ctx old =
     \<lparr>StorageItem.value = v, attributes = Some attrs, timestamp = ts,
      spanId = map_option SpanContext.spanId (getSpanContext ctx),
      traceId = map_option SpanContext.traceId (getSpanContext ctx)\<rparr>"
  by (simp add: StorageItem_offerMeasurement_def Let_def)

lemma drainStorage_update:
  assumes "i < length xs"
  shows "fst (drainStorage p (xs[i := item])) =
           fst (drainStorage p (take i xs)) @ fst (drainStorage p [item])
             @ fst (drainStorage p (drop (Suc i) xs))"
proof -
  have "xs[i := item] = take i xs @ [item] @ drop (Suc i) xs"
    using assms by (simp add: upd_conv_take_nth_drop)
  then show ?thesis by (simp only: drainStorage_append fst_conv)
qed

lemma drainStorage_single:
  "fst (drainStorage p [\<lparr>StorageItem.value = v, attributes = Some attrs, timestamp = ts,
                         spanId = s, traceId = t\<rparr>]) =
     [\<lparr>filteredAttributes = fold (filterKey p) (objectKeys p) attrs, value = v,
       timestamp = ts, spanId = s, traceId = t\<rparr>]"
  by (simp add: StorageItem_getAndReset_def Let_def)

text \<open>
  Claim C5. Two offers directed to the same slot \<open>i\<close>: the second one raises no fault and
  replaces every stored field (value, attributes, timestamp, span id, trace id) by its own,
  whatever the slot held. In the collected sequence the exemplar of slot \<open>i\<close>, between
  those of the lower and those of the higher slots, is built from the second measurement
  alone.
\<close>

theorem offerMeasurement_overwrites:
  assumes "i < length (reservoirStorage this)"
  shows "(let first = snd (offerMeasurement (fixedIndex (int i)) v1 ts1 attrs1 ctx1 this);
              (fault, second) = offerMeasurement (fixedIndex (int i)) v2 ts2 attrs2 ctx2 first
          in fault = None
             \<and> reservoirStorage second ! i =
                 \<lparr>StorageItem.value = v2, attributes = Some attrs2, timestamp = ts2,
                  spanId = map_option SpanContext.spanId (getSpanContext ctx2),
                  traceId = map_option SpanContext.traceId (getSpanContext ctx2)\<rparr>
             \<and> fst (collectAndReset p second) =
                 fst (drainStorage p (take i (reservoirStorage this)))
                 @ \<lparr>filteredAttributes = fold (filterKey p) (objectKeys p) attrs2,
                    value = v2, timestamp = ts2,
                    spanId = map_option SpanContext.spanId (getSpanContext ctx2),
                    traceId = map_option SpanContext.traceId (getSpanContext ctx2)\<rparr>
                 # fst (drainStorage p (drop (Suc i) (reservoirStorage this))))"
proof -
  define first where "first = snd (offerMeasurement (fixedIndex (int i)) v1 ts1 attrs1 ctx1 this)"
  define item2 where "item2 = \<lparr>StorageItem.value = v2, attributes = Some attrs2, timestamp = ts2,
                  spanId = map_option SpanContext.spanId (getSpanContext ctx2),
                  traceId = map_option SpanContext.traceId (getSpanContext ctx2)\<rparr>"
  have len1: "i < length (reservoirStorage first)"
    using assms by (simp add: first_def offerMeasurement_length)
  have st1: "reservoirStorage first =
      (reservoirStorage this)[i := StorageItem_offerMeasurement v1 ts1 attrs1 ctx1 (reservoirStorage this ! i)]"
    by (simp add: first_def offerMeasurement_in_range[OF assms])
  have second: "offerMeasurement (fixedIndex (int i)) v2 ts2 attrs2 ctx2 first =
      (None, first\<lparr>reservoirStorage := (reservoirStorage this)[i := item2]\<rparr>)"
    by (simp add: offerMeasurement_in_range[OF len1] st1 StorageItem_offerMeasurement_eq item2_def)
  have slot: "(reservoirStorage this)[i := item2] ! i = item2"
    using assms by simp
  have out: "fst (drainStorage p ((reservoirStorage this)[i := item2])) =
     fst (drainStorage p (take i (reservoirStorage this)))
       @ \<lparr>filteredAttributes = fold (filterKey p) (objectKeys p) attrs2,
          value = v2, timestamp = ts2,
          spanId = map_option SpanContext.spanId (getSpanContext ctx2),
          traceId = map_option SpanContext.traceId (getSpanContext ctx2)\<rparr>
       # fst (drainStorage p (drop (Suc i) (reservoirStorage this)))"
    unfolding drainStorage_update[OF assms] item2_def drainStorage_single by simp
  show ?thesis
    unfolding Let_def first_def[symmetric] second
    using slot out by (simp add: collectAndReset_fst item2_def)
qed

text \<open>Two offers to slot 1 of a reservoir of two slots, then a collect.\<close>

theorem offerMeasurement_overwrites_witness:
  "(1::nat) < length (reservoirStorage (FixedSizeExemplarReservoirBase_new 2))
   \<and> fst (collectAndReset [(''a'', ANumber 1)]
        (snd (offerMeasurement (fixedIndex 1) 7 (3, 4) [(''a'', ANumber 1), (''b'', ANumber 2)]
                (Context None)
           (snd (offerMeasurement (fixedIndex 1) 5 (1, 2) [(''c'', ANumber 9)]
                (Context (Some \<lparr>SpanContext.traceId = ''t'', spanId = ''s''\<rparr>))
                (FixedSizeExemplarReservoirBase_new 2))))))
     = [\<lparr>filteredAttributes = [(''b'', ANumber 2)], value = 7, timestamp = (3, 4),
         spanId = None, traceId = None\<rparr>]"
  using offerMeasurement_overwrites
          [of 1 "FixedSizeExemplarReservoirBase_new 2" 5 "(1, 2)" "[(''c'', ANumber 9)]"
              "Context (Some \<lparr>SpanContext.traceId = ''t'', spanId = ''s''\<rparr>)"
              7 "(3, 4)" "[(''a'', ANumber 1), (''b'', ANumber 2)]" "Context None"
              "[(''a'', ANumber 1)]"]
  by (simp add: Let_def FixedSizeExemplarReservoirBase_new_def StorageItem_new_def
        StorageItem_getAndReset_def objectKeys_def filterKey_def getProp_def strictEquals_def
        deleteProp_def numeral_2_eq_2 split: prod.splits)


text \<open>
  Claim C6, as amended. A reservoir constructed with capacity 0 has no slot after any
  history of calls, \<open>collectAndReset\<close> returns the empty sequence, and no offer changes
  the reservoir; the offer returns normally when \<open>reservoirIndexFor\<close> answers the sentinel
  \<open>-1\<close> and raises a \<open>TypeError\<close> for any other index.
\<close>

theorem zero_capacity:
  "(let this = runCalls calls (FixedSizeExemplarReservoirBase_new 0)
    in reservoirStorage this = []
       \<and> fst (collectAndReset p this) = []
       \<and> offerMeasurement reservoirIndexFor v ts attrs ctx this =
           (if reservoirIndexFor v ts attrs ctx = - 1 then None else Some TypeError, this))"
proof -
  define this where "this = runCalls calls (FixedSizeExemplarReservoirBase_new 0)"
  have "length (reservoirStorage this) = 0"
    by (simp add: this_def runCalls_length new_length)
  then have st: "reservoirStorage this = []" by simp
  show ?thesis
    unfolding Let_def this_def[symmetric]
    by (simp add: st collectAndReset_fst offerMeasurement_def Let_def)
qed

text \<open>
  Claim C6 as stated fails: with capacity 0, an offer for which the strategy answers index 0
  does not return normally.
\<close>

theorem capacity_zero_offer_faults:
  "fst (offerMeasurement (fixedIndex 0) 5 (1, 2) [(''a'', ANumber 1)] (Context None)
          (FixedSizeExemplarReservoirBase_new 0)) = Some TypeError"
  by (simp add: offerMeasurement_def fixedIndex_def FixedSizeExemplarReservoirBase_new_def)


text \<open>
  Claim C7. An offer whose context carries the span context of an active span stores that
  span's \<open>spanId\<close> and \<open>traceId\<close> in the slot, and the exemplar read from the slot has
  them. An offer whose context carries none stores neither, the exemplar has neither, and
  the offer to a slot \<open>i\<close> of the reservoir raises no fault.
\<close>

theorem offerMeasurement_span_ids:
  assumes "i < length (reservoirStorage this)"
  shows "(let item = StorageItem_offerMeasurement v ts attrs (Context (Some sc)) old
          in StorageItem.spanId item = Some (SpanContext.spanId sc)
             \<and> StorageItem.traceId item = Some (SpanContext.traceId sc)
             \<and> map_option Exemplar.spanId (fst (StorageItem_getAndReset p item))
                 = Some (Some (SpanContext.spanId sc))
             \<and> map_option Exemplar.traceId (fst (StorageItem_getAndReset p item))
                 = Some (Some (SpanContext.traceId sc)))
       \<and> (let item = StorageItem_offerMeasurement v ts attrs (Context None) old
          in StorageItem.spanId item = None
             \<and> StorageItem.traceId item = None
             \<and> map_option Exemplar.spanId (fst (StorageItem_getAndReset p item)) = Some None
             \<and> map_option Exemplar.traceId (fst (StorageItem_getAndReset p item)) = Some None)
       \<and> (let (fault, this') = offerMeasurement (fixedIndex (int i)) v ts attrs (Context None) this
          in fault = None
             \<and> StorageItem.spanId (reservoirStorage this' ! i) = None
             \<and> StorageItem.traceId (reservoirStorage this' ! i) = None)"
  using assms
  by (simp add: offerMeasurement_in_range StorageItem_offerMeasurement_eq
        StorageItem_getAndReset_def Let_def)

text \<open>An offer with an active span read back, and an offer with no span to a reservoir of one slot.\<close>

theorem offerMeasurement_span_ids_witness:
  "(0::nat) < length (reservoirStorage (FixedSizeExemplarReservoirBase_new 1))
   \<and> fst (StorageItem_getAndReset []
        (StorageItem_offerMeasurement 5 (1, 2) [] (Context (Some \<lparr>SpanContext.traceId = ''t'', spanId = ''s''\<rparr>))
           StorageItem_new))
     = Some \<lparr>filteredAttributes = [], value = 5, timestamp = (1, 2),
             spanId = Some ''s'', traceId = Some ''t''\<rparr>
   \<and> fst (offerMeasurement (fixedIndex 0) 5 (1, 2) [] (Context None)
        (FixedSizeExemplarReservoirBase_new 1)) = None"
  using offerMeasurement_span_ids
          [of 0 "FixedSizeExemplarReservoirBase_new 1" 5 "(1, 2)" "[]"
              "\<lparr>SpanContext.traceId = ''t'', spanId = ''s''\<rparr>" StorageItem_new "[]"]
  by (simp add: Let_def FixedSizeExemplarReservoirBase_new_def StorageItem_new_def
        StorageItem_getAndReset_def StorageItem_offerMeasurement_def objectKeys_def
        split: prod.splits)


text \<open>
  Claim C9. A slot yields an exemplar exactly when its stored attributes are not \<open>null\<close>,
  whatever its other fields hold. After an accepted offer of value 0, timestamp \<open>[0, 0]\<close>
  and empty attributes, slot \<open>i\<close> is occupied and the next \<open>collectAndReset\<close> returns an
  exemplar for it, with value 0 and empty attributes, at the place of slot \<open>i\<close>.
\<close>

theorem occupancy_is_attributes:
  assumes "i < length (reservoirStorage this)"
  shows "(fst (StorageItem_getAndReset p item) \<noteq> None) = (attributes item \<noteq> None)
       \<and> (let this' = snd (offerMeasurement (fixedIndex (int i)) 0 (0, 0) [] ctx this)
          in occupied (reservoirStorage this' ! i)
             \<and> fst (collectAndReset p this') =
                 fst (drainStorage p (take i (reservoirStorage this)))
                 @ \<lparr>filteredAttributes = [], value = 0, timestamp = (0, 0),
                    spanId = map_option SpanContext.spanId (getSpanContext ctx),
                    traceId = map_option SpanContext.traceId (getSpanContext ctx)\<rparr>
                 # fst (drainStorage p (drop (Suc i) (reservoirStorage this))))"
proof -
  have a: "(fst (StorageItem_getAndReset p item) \<noteq> None) = (attributes item \<noteq> None)"
    by (simp add: getAndReset_None_iff)
  have nofilter: "fold (filterKey p) (objectKeys p) [] = []"
    by (simp add: fold_filterKey)
  have b: "fst (drainStorage p ((reservoirStorage this)
             [i := StorageItem_offerMeasurement 0 (0, 0) [] ctx (reservoirStorage this ! i)])) =
     fst (drainStorage p (take i (reservoirStorage this)))
       @ \<lparr>filteredAttributes = [], value = 0, timestamp = (0, 0),
          spanId = map_option SpanContext.spanId (getSpanContext ctx),
          traceId = map_option SpanContext.traceId (getSpanContext ctx)\<rparr>
       # fst (drainStorage p (drop (Suc i) (reservoirStorage this)))"
    unfolding drainStorage_update[OF assms] StorageItem_offerMeasurement_eq drainStorage_single nofilter
    by simp
  show ?thesis
    unfolding Let_def offerMeasurement_in_range[OF assms]
    using a b assms by (simp add: collectAndReset_fst occupied_def StorageItem_offerMeasurement_eq)
qed

text \<open>The all-zero measurement offered to a reservoir of one slot, then collected.\<close>

theorem occupancy_is_attributes_witness:
  "(0::nat) < length (reservoirStorage (FixedSizeExemplarReservoirBase_new 1))
   \<and> fst (collectAndReset [(''a'', ANumber 1)]
        (snd (offerMeasurement (fixedIndex 0) 0 (0, 0) [] (Context None)
                (FixedSizeExemplarReservoirBase_new 1))))
     = [\<lparr>filteredAttributes = [], value = 0, timestamp = (0, 0), spanId = None, traceId = None\<rparr>]"
  using occupancy_is_attributes
          [of 0 "FixedSizeExemplarReservoirBase_new 1" "[(''a'', ANumber 1)]" StorageItem_new
              "Context None"]
  by (simp add: Let_def FixedSizeExemplarReservoirBase_new_def)

section \<open>Properties of the gRPC client instrumentation\<close>

subsection \<open>The span of a streaming call\<close>

lemma emit_ended: "callSpanEnded c \<Longrightarrow> emit utils original ev c = c"
  by (cases ev) (simp_all add: onError_def onStatus_def)

lemma emitAll_ended: "callSpanEnded c \<Longrightarrow> emitAll utils original evs c = c"
  by (induction evs) (simp_all add: emit_ended)

lemma emit_first:
  assumes "responseStream original" and "\<not> callSpanEnded c" and "\<not> spanEnded c"
  shows "callSpanEnded (emit utils original ev c)"
    and "spanEnded (emit utils original ev c)"
    and "endCalls (emit utils original ev c) = Suc (endCalls c)"
  using assms by (cases ev; simp add: onError_def onStatus_def endSpan_def endCalls_def)+

text \<open>
  Claim C8. For a call with a response stream whose span has not been ended, and any
  sequence of \<open>error\<close> and \<open>status\<close> events with at least one event: \<open>span.end()\<close> is
  called exactly once. The first event ends the span and sets both guards
  (\<open>call[CALL_SPAN_ENDED]\<close> and \<open>spanEnded\<close>); the events after it change nothing.
\<close>

theorem span_ended_once:
  assumes "responseStream original" and "\<not> callSpanEnded c" and "\<not> spanEnded c"
  shows "endCalls (emitAll utils original (ev # evs) c) = endCalls c + 1
       \<and> emitAll utils original (ev # evs) c = emit utils original ev c
       \<and> callSpanEnded (emit utils original ev c)
       \<and> spanEnded (emit utils original ev c)
       \<and> endCalls (emit utils original ev c) = endCalls c + 1
       \<and> endCalls newStreamCall = 0"
proof -
  have rest: "emitAll utils original (ev # evs) c = emit utils original ev c"
    using emit_first(1)[OF assms] by (simp add: emitAll_ended)
  show ?thesis
    unfolding rest using emit_first[OF assms, of utils ev]
    by (simp add: endCalls_def newStreamCall_def)
qed

text \<open>An \<open>error\<close>, then a \<open>status\<close>, then an \<open>error\<close> again on a fresh server-stream call.\<close>

theorem span_ended_once_witness:
  "responseStream \<lparr>requestStream = False, responseStream = True\<rparr>
   \<and> \<not> callSpanEnded newStreamCall \<and> \<not> spanEnded newStreamCall
   \<and> endCalls (emitAll
        \<lparr>grpcStatusCodeToSpanStatus = (\<lambda>c. \<lparr>SpanStatus.code = UNSET, message = None\<rparr>),
         grpcStatusCodeToOpenTelemetryStatusCode = (\<lambda>c. ERROR)\<rparr>
        \<lparr>requestStream = False, responseStream = True\<rparr>
        [ErrorEvent \<lparr>ServiceError.code = 14, name = ''Error'', message = ''unavailable''\<rparr>,
         StatusEvent \<lparr>StatusObject.code = 14\<rparr>,
         ErrorEvent \<lparr>ServiceError.code = 14, name = ''Error'', message = ''unavailable''\<rparr>]
        newStreamCall) = 1"
  using span_ended_once
          [of "\<lparr>requestStream = False, responseStream = True\<rparr>" newStreamCall
              "\<lparr>grpcStatusCodeToSpanStatus = (\<lambda>c. \<lparr>SpanStatus.code = UNSET, message = None\<rparr>),
                grpcStatusCodeToOpenTelemetryStatusCode = (\<lambda>c. ERROR)\<rparr>"
              "ErrorEvent \<lparr>ServiceError.code = 14, name = ''Error'', message = ''unavailable''\<rparr>"
              "[StatusEvent \<lparr>StatusObject.code = 14\<rparr>,
                ErrorEvent \<lparr>ServiceError.code = 14, name = ''Error'', message = ''unavailable''\<rparr>]"]
  by (simp add: newStreamCall_def endCalls_def)


subsection \<open>getMetadata\<close>

lemma findIndexFrom_none: "find p xs = None \<Longrightarrow> findIndexFrom i p xs = - 1"
  by (induction xs arbitrary: i) (auto split: if_splits)

lemma findIndexFrom_some:
  "find p xs = Some x \<Longrightarrow> 0 \<le> i \<Longrightarrow>
     i \<le> findIndexFrom i p xs \<and> nat (findIndexFrom i p xs - i) < length xs
       \<and> xs ! nat (findIndexFrom i p xs - i) = x"
proof (induction xs arbitrary: i)
  case Nil
  then show ?case by simp
next
  case (Cons y ys)
  show ?case
  proof (cases "p y")
    case True
    with Cons.prems show ?thesis by simp
  next
    case False
    with Cons.prems have f: "find p ys = Some x" by simp
    have "0 \<le> i + 1" using Cons.prems by simp
    from Cons.IH[OF f this]
    have ih: "i + 1 \<le> findIndexFrom (i + 1) p ys"
             "nat (findIndexFrom (i + 1) p ys - (i + 1)) < length ys"
             "ys ! nat (findIndexFrom (i + 1) p ys - (i + 1)) = x"
      by simp_all
    have shift: "nat (findIndexFrom (i + 1) p ys - i) = Suc (nat (findIndexFrom (i + 1) p ys - (i + 1)))"
      using ih(1) by arith
    show ?thesis using False ih by (simp add: shift)
  qed
qed

lemma findIndex_some:
  assumes "find p xs = Some x"
  shows "findIndex p xs \<noteq> - 1 \<and> xs ! nat (findIndex p xs) = x"
  using findIndexFrom_some[OF assms, of 0] by (auto simp: findIndex_def)

text \<open>
  Claim C10, as amended. \<open>getMetadata\<close> returns the first argument of \<open>args\<close> that has
  the shape of a Metadata and leaves \<open>args\<close> as it is. When no argument has that shape,
  it returns the newly constructed Metadata and inserts it into \<open>args\<close>, which grows by
  exactly one element: at index 0 for a call with a request stream; for a call without one
  at index 1 when \<open>args\<close> is not empty, and at index 0, the end, when \<open>args\<close> is empty.
\<close>

theorem getMetadata_result:
  "(let k = (if requestStream original then 0 else min 1 (length args))
    in getMetadata newMetadata original args =
         (case find isMetadata args of
            Some metadata \<Rightarrow> (metadata, args)
          | None \<Rightarrow> (newMetadata, take k args @ newMetadata # drop k args))
       \<and> (take k args @ newMetadata # drop k args) ! k = newMetadata
       \<and> length (take k args @ newMetadata # drop k args) = length args + 1)"
proof (cases "find isMetadata args")
  case None
  then show ?thesis
    by (auto simp: getMetadata_def findIndex_def findIndexFrom_none splice_insert_def Let_def
          nth_append min_def)
next
  case (Some m)
  from findIndex_some[OF Some] show ?thesis
    by (auto simp: getMetadata_def Let_def Some nth_append min_def)
qed

text \<open>
  Claim C10 as stated fails: for a call without a request stream and with empty \<open>args\<close>,
  the new Metadata is the only element of \<open>args\<close>, at index 0; there is no index 1.
\<close>

theorem getMetadata_empty_args:
  "find isMetadata [] = None
   \<and> snd (getMetadata
        (JSObject 0 [(''internalRepr'', JSObject 1 []), (''getMap'', JSFunction 0)])
        \<lparr>requestStream = False, responseStream = False\<rparr> [])
      = [JSObject 0 [(''internalRepr'', JSObject 1 []), (''getMap'', JSFunction 0)]]
   \<and> \<not> 1 < length (snd (getMetadata
        (JSObject 0 [(''internalRepr'', JSObject 1 []), (''getMap'', JSFunction 0)])
        \<lparr>requestStream = False, responseStream = False\<rparr> []))"
  by (simp add: getMetadata_def findIndex_def splice_insert_def Let_def)

end
